theory Spec2Isabelle
  imports Complex_Main
begin

section \<open>Python floats\<close>

text \<open>
  A Python float is an IEEE 754 double.  A finite double is the real number it denotes.
  The result of an arithmetic operation is the exact real result rounded to the nearest
  double, ties to the even significand; a rounded result of magnitude \<open>2 ^ 1024\<close> or
  more is an infinity.  \<open>expo\<close> is the binary exponent of a real, not below the exponent
  of the subnormal doubles; \<open>ulp\<close> is the distance between the doubles around it (53
  significant bits); \<open>rnd\<close> rounds to a multiple of \<open>ulp\<close>.
\<close>

function expo_up :: "real \<Rightarrow> int \<Rightarrow> int" where
  "expo_up x e = (if 2 powi (e + 1) \<le> x then expo_up x (e + 1) else e)"
  by pat_completeness auto
termination
proof (relation "measure (\<lambda>(x, e). nat (\<lceil>log 2 x\<rceil> - e))")
  show "wf (measure (\<lambda>(x, e). nat (\<lceil>log 2 x\<rceil> - e)))" by simp
next
  fix x :: real and e :: int
  assume a: "2 powi (e + 1) \<le> x"
  have pos: "0 < x" using a by (smt (verit) zero_less_power_int)
  have "(2::real) powr (of_int (e + 1)) = 2 powi (e + 1)"
    by (rule powr_real_of_int') auto
  then have "2 powr (of_int (e + 1)) \<le> x" using a by simp
  then have "of_int (e + 1) \<le> log 2 x" using pos by (simp add: le_log_iff)
  then have "e + 1 \<le> \<lceil>log 2 x\<rceil>" by linarith
  then show "((x, e + 1), (x, e)) \<in> measure (\<lambda>(x, e). nat (\<lceil>log 2 x\<rceil> - e))" by simp
qed

function expo_down :: "real \<Rightarrow> int \<Rightarrow> int" where
  "expo_down x e = (if x < 2 powi e \<and> - 1022 < e then expo_down x (e - 1) else e)"
  by pat_completeness auto
termination
  by (relation "measure (\<lambda>(x, e). nat (e + 1022))") auto

declare expo_up.simps [simp del] expo_down.simps [simp del]

definition expo :: "real \<Rightarrow> int" where
  "expo x = (if 1 \<le> \<bar>x\<bar> then expo_up \<bar>x\<bar> 0 else expo_down \<bar>x\<bar> 0)"

definition ulp :: "real \<Rightarrow> real" where
  "ulp x = 2 powi (expo x - 52)"

definition round_even :: "real \<Rightarrow> int" where
  "round_even y =
     (if y - of_int \<lfloor>y\<rfloor> < 1 / 2 then \<lfloor>y\<rfloor>
      else if 1 / 2 < y - of_int \<lfloor>y\<rfloor> then \<lfloor>y\<rfloor> + 1
      else if even \<lfloor>y\<rfloor> then \<lfloor>y\<rfloor> else \<lfloor>y\<rfloor> + 1)"

definition rnd :: "real \<Rightarrow> real" where
  "rnd x = (if x = 0 then 0 else of_int (round_even (x / ulp x)) * ulp x)"

datatype pyfloat = Finite real | PosInf | NegInf

definition to_float :: "real \<Rightarrow> pyfloat" where
  "to_float r =
     (if 2 powi 1024 \<le> r then PosInf else if r \<le> - (2 powi 1024) then NegInf else Finite r)"

text \<open>
  \<^verbatim>\<open>a - b\<close> on two finite floats.  An operand is given as a real and stands for the
  float nearest to it, which is the operand itself when it is a double.
\<close>

definition fsub :: "real \<Rightarrow> real \<Rightarrow> pyfloat" where
  "fsub a b = to_float (rnd (rnd a - rnd b))"

text \<open>\<^verbatim>\<open>a <= b\<close> on floats.\<close>

fun float_le :: "pyfloat \<Rightarrow> pyfloat \<Rightarrow> bool" where
  "float_le (Finite a) (Finite b) = (a \<le> b)"
| "float_le NegInf _ = True"
| "float_le _ PosInf = True"
| "float_le _ _ = False"

fun is_finite :: "pyfloat \<Rightarrow> bool" where
  "is_finite (Finite a) = True"
| "is_finite _ = False"

section \<open>Values and responses\<close>

text \<open>
  The handlers return Python dict literals whose values are strings, floats and booleans.
  A dict literal is an association list in the order the source writes its keys.
\<close>

datatype json = JString string | JNumber pyfloat | JBool bool

type_synonym body = "(string \<times> json) list"

datatype error = ValueError | OverflowError

definition keys :: "body \<Rightarrow> string list" where
  "keys b = map fst b"

definition num_field :: "string \<Rightarrow> body \<Rightarrow> pyfloat option" where
  "num_field k b = (case map_of b k of Some (JNumber x) \<Rightarrow> Some x | _ \<Rightarrow> None)"

text \<open>
  FastAPI sends the returned dict as a JSON object, written with
  \<^verbatim>\<open>json.dumps(..., allow_nan=False)\<close>, which raises ValueError on a float that is not
  finite; the client then gets an internal server error instead of the object.
\<close>

fun json_compliant :: "json \<Rightarrow> bool" where
  "json_compliant (JNumber x) = is_finite x"
| "json_compliant _ = True"

definition render :: "body \<Rightarrow> error + body" where
  "render b = (if list_all (\<lambda>(k, v). json_compliant v) b then Inr b else Inl ValueError)"

section \<open>routes/health.py\<close>

text \<open>
  The only module-level variable that holds data is \<^verbatim>\<open>start_time\<close>; it is the
  whole state of the process.  \<^verbatim>\<open>start_time = time.time()\<close> runs when the module is
  imported; the clock reading is an input of the model.  \<^verbatim>\<open>time.time()\<close> is the
  wall clock: Python documents that it can return a lower value than an earlier call when
  the system clock is set back, so no order between two readings is built in.  A reading
  is a finite float, given as the real it denotes.
\<close>

record state =
  start_time :: real

definition init_health :: "real \<Rightarrow> state" where
  "init_health now = \<lparr>start_time = now\<rparr>"

text \<open>
  A handler takes the clock (what \<^verbatim>\<open>time.time()\<close> returns during the call) and the
  state, and returns the response body with the state it leaves behind.
\<close>

definition health :: "real \<Rightarrow> state \<Rightarrow> body \<times> state" where
  "health now st =
     ([(''status'', JString ''healthy''), (''uptime'', JNumber (fsub now (start_time st)))], st)"

definition ready :: "real \<Rightarrow> state \<Rightarrow> body \<times> state" where
  "ready now st = ([(''ready'', JBool True)], st)"

datatype endpoint = Root | Health | Ready

type_synonym route = "string \<times> string \<times> endpoint"

text \<open>\<^verbatim>\<open>router = APIRouter()\<close> with its two \<^verbatim>\<open>@router.get\<close> decorators, in order.\<close>

definition router :: "route list" where
  "router = [(''GET'', ''/'', Health), (''GET'', ''/ready'', Ready)]"

section \<open>main.py: the application object\<close>

record cors_middleware =
  allow_origins :: "string list"
  allow_credentials :: bool
  allow_methods :: "string list"
  allow_headers :: "string list"

record fastapi =
  title :: string
  user_middleware :: "cors_middleware list"
  routes :: "route list"

text \<open>
  The routes that FastAPI itself registers for its documentation pages are not part of
  the model: \<open>routes\<close> holds the routes this source registers.
\<close>

definition FastAPI :: "string \<Rightarrow> fastapi" where
  "FastAPI t = \<lparr>title = t, user_middleware = [], routes = []\<rparr>"

definition add_middleware :: "cors_middleware \<Rightarrow> fastapi \<Rightarrow> fastapi" where
  "add_middleware m a = a\<lparr>user_middleware := m # user_middleware a\<rparr>"

definition include_router :: "route list \<Rightarrow> string \<Rightarrow> fastapi \<Rightarrow> fastapi" where
  "include_router r prefix a =
     a\<lparr>routes := routes a @ map (\<lambda>(m, p, e). (m, prefix @ p, e)) r\<rparr>"

definition get_route :: "string \<Rightarrow> endpoint \<Rightarrow> fastapi \<Rightarrow> fastapi" where
  "get_route p e a = a\<lparr>routes := routes a @ [(''GET'', p, e)]\<rparr>"

text \<open>
  \<^verbatim>\<open>{{PROJECT_NAME}}\<close> is a placeholder that the scaffold generator replaces by the
  project's display name; the name is a parameter.
\<close>

definition app :: "string \<Rightarrow> fastapi" where
  "app project_name =
     get_route ''/'' Root
       (include_router router ''/health''
         (add_middleware
            \<lparr>allow_origins = [''*''], allow_credentials = True,
             allow_methods = [''*''], allow_headers = [''*'']\<rparr>
            (FastAPI project_name)))"

definition root_handler :: "string \<Rightarrow> real \<Rightarrow> state \<Rightarrow> body \<times> state" where
  "root_handler project_name now st =
     ([(''message'', JString (''Welcome to '' @ project_name))], st)"

section \<open>Serving requests\<close>

fun call :: "string \<Rightarrow> endpoint \<Rightarrow> real \<Rightarrow> state \<Rightarrow> body \<times> state" where
  "call project_name Root = root_handler project_name"
| "call project_name Health = health"
| "call project_name Ready = ready"

definition lookup_route :: "route list \<Rightarrow> string \<Rightarrow> string \<Rightarrow> endpoint option" where
  "lookup_route rs m p =
     map_option (\<lambda>(m', p', e). e) (find (\<lambda>(m', p', e). m' = m \<and> p' = p) rs)"

text \<open>
  A request is a method and a path.  The result is \<open>None\<close> when no route of this source
  matches, and the body returned by the handler otherwise.
\<close>

definition request :: "string \<Rightarrow> string \<times> string \<Rightarrow> real \<Rightarrow> state \<Rightarrow> body option \<times> state" where
  "request project_name rq now st =
     (case lookup_route (routes (app project_name)) (fst rq) (snd rq) of
        None \<Rightarrow> (None, st)
      | Some e \<Rightarrow> (Some (fst (call project_name e now st)), snd (call project_name e now st)))"

text \<open>What the client of a matched request is sent: the rendered body, or the error.\<close>

definition respond :: "string \<Rightarrow> string \<times> string \<Rightarrow> real \<Rightarrow> state \<Rightarrow> (error + body) option" where
  "respond project_name rq now st = map_option render (fst (request project_name rq now st))"

text \<open>A run of the process: requests, each with the clock reading of its handling.\<close>

fun serve :: "string \<Rightarrow> ((string \<times> string) \<times> real) list \<Rightarrow> state \<Rightarrow> body option list \<times> state" where
  "serve project_name [] st = ([], st)"
| "serve project_name ((rq, now) # rest) st =
     (fst (request project_name rq now st) #
        fst (serve project_name rest (snd (request project_name rq now st))),
      snd (serve project_name rest (snd (request project_name rq now st))))"

text \<open>Reading the uptime out of responses.\<close>

definition uptime_of :: "body option \<Rightarrow> pyfloat option" where
  "uptime_of r = (case r of None \<Rightarrow> None | Some b \<Rightarrow> num_field ''uptime'' b)"

definition uptimes :: "body option list \<Rightarrow> pyfloat option list" where
  "uptimes rs = map uptime_of rs"

section \<open>Elapsed time\<close>

text \<open>
  The specification speaks of the seconds elapsed between process start and a call.  An
  instant has the time that has really passed, in seconds from some origin, and the
  reading of the wall clock at that instant; the handlers see the reading only.  The
  elapsed seconds between two instants, as a float, follow the specification's words and
  not the source.
\<close>

record instant =
  true_time :: real
  wall_clock :: real

definition seconds_elapsed :: "instant \<Rightarrow> instant \<Rightarrow> pyfloat" where
  "seconds_elapsed start at_call = to_float (rnd (true_time at_call - true_time start))"

section \<open>main.py: the entry point\<close>






subsection \<open>Python's \<^verbatim>\<open>int\<close> on a string\<close>










subsection \<open>The \<^verbatim>\<open>__main__\<close> block\<close>






section \<open>What the specification calls a numeric port value\<close>









subsection \<open>Concrete strings and a concrete database\<close>



section \<open>Rounding is monotone, and exact on the doubles\<close>

lemma expo_up_spec:
  "2 powi e \<le> x \<Longrightarrow> 2 powi (expo_up x e) \<le> x \<and> x < 2 powi (expo_up x e + 1) \<and> e \<le> expo_up x e"
proof (induction x e rule: expo_up.induct)
  case (1 x e)
  show ?case
  proof (cases "2 powi (e + 1) \<le> x")
    case True
    with 1 show ?thesis by (subst (1 2 3) expo_up.simps) auto
  next
    case False
    with 1 show ?thesis by (subst (1 2 3) expo_up.simps) auto
  qed
qed

lemma expo_down_spec:
  "0 \<le> x \<Longrightarrow> x < 2 powi (e + 1) \<Longrightarrow> - 1022 \<le> e \<Longrightarrow>
   x < 2 powi (expo_down x e + 1) \<and> - 1022 \<le> expo_down x e
   \<and> (2 powi (expo_down x e) \<le> x \<or> expo_down x e = - 1022)"
proof (induction x e rule: expo_down.induct)
  case (1 x e)
  show ?case
  proof (cases "x < 2 powi e \<and> - 1022 < e")
    case True
    with 1 show ?thesis by (subst (1 2 3 4) expo_down.simps) auto
  next
    case False
    with 1 show ?thesis by (subst (1 2 3 4) expo_down.simps) auto
  qed
qed

lemma expo_spec:
  "\<bar>x\<bar> < 2 powi (expo x + 1)" "- 1022 \<le> expo x" "2 powi (expo x) \<le> \<bar>x\<bar> \<or> expo x = - 1022"
proof -
  have "\<bar>x\<bar> < 2 powi (expo x + 1) \<and> - 1022 \<le> expo x \<and> (2 powi (expo x) \<le> \<bar>x\<bar> \<or> expo x = - 1022)"
  proof (cases "1 \<le> \<bar>x\<bar>")
    case True
    then have "2 powi 0 \<le> \<bar>x\<bar>" by simp
    from expo_up_spec [OF this] True show ?thesis by (auto simp: expo_def)
  next
    case False
    then have "\<bar>x\<bar> < 2 powi (0 + 1)" by simp
    from expo_down_spec [OF _ this] False show ?thesis by (auto simp: expo_def)
  qed
  then show "\<bar>x\<bar> < 2 powi (expo x + 1)" "- 1022 \<le> expo x"
    "2 powi (expo x) \<le> \<bar>x\<bar> \<or> expo x = - 1022" by auto
qed


lemma round_even_bounds: "\<lfloor>y\<rfloor> \<le> round_even y" "round_even y \<le> \<lfloor>y\<rfloor> + 1"
  by (simp_all add: round_even_def)

lemma round_even_mono:
  assumes "y \<le> z"
  shows "round_even y \<le> round_even z"
proof (cases "\<lfloor>y\<rfloor> = \<lfloor>z\<rfloor>")
  case True
  with assms show ?thesis
    by (auto simp: round_even_def)
next
  case False
  with assms have "\<lfloor>y\<rfloor> + 1 \<le> \<lfloor>z\<rfloor>"
    using floor_mono [OF assms] by linarith
  with round_even_bounds(2) [of y] round_even_bounds(1) [of z] show ?thesis
    by linarith
qed

lemma round_even_of_int: "round_even (of_int k) = k"
  by (simp add: round_even_def)

lemma round_even_minus: "round_even (- y) = - round_even y"
proof (cases "y \<in> \<int>")
  case True
  then obtain k where "y = of_int k" by (auto elim: Ints_cases)
  then show ?thesis
    using round_even_of_int [of "- k"] by (simp add: round_even_of_int)
next
  case False
  then have "y \<noteq> of_int \<lfloor>y\<rfloor>"
    by (metis Ints_of_int)
  then have fl: "\<lfloor>- y\<rfloor> = - \<lfloor>y\<rfloor> - 1"
    by (simp add: floor_minus ceiling_altdef)
  show ?thesis
    unfolding round_even_def fl by (auto simp: algebra_simps)
qed


lemma expo_minus: "expo (- x) = expo x"
  by (simp add: expo_def)

lemma ulp_minus: "ulp (- x) = ulp x"
  by (simp add: ulp_def expo_minus)

lemma ulp_pos: "0 < ulp x"
  by (simp add: ulp_def)

lemma rnd_minus: "rnd (- x) = - rnd x"
  by (simp add: rnd_def ulp_minus round_even_minus)

lemma rnd_nonneg:
  assumes "0 \<le> x"
  shows "0 \<le> rnd x"
proof -
  have "0 \<le> x / ulp x" using assms ulp_pos [of x] by simp
  then have "round_even 0 \<le> round_even (x / ulp x)"
    by (rule round_even_mono)
  moreover have "round_even 0 = 0" by (simp add: round_even_def)
  ultimately have "0 \<le> round_even (x / ulp x)" by simp
  then show ?thesis using ulp_pos [of x] by (simp add: rnd_def)
qed

lemma expo_mono:
  assumes "\<bar>x\<bar> \<le> \<bar>y\<bar>"
  shows "expo x \<le> expo y"
proof (rule ccontr)
  assume "\<not> expo x \<le> expo y"
  then have lt: "expo y + 1 \<le> expo x" by simp
  with expo_spec(2) [of y] expo_spec(3) [of x] have "2 powi (expo x) \<le> \<bar>x\<bar>" by auto
  moreover have "(2::real) powi (expo y + 1) \<le> 2 powi (expo x)"
    using lt by (intro power_int_increasing) auto
  ultimately show False using expo_spec(1) [of y] assms by linarith
qed

lemma ulp_mult: "of_int (2 ^ 52) * ulp x = 2 powi (expo x)" "of_int (2 ^ 53) * ulp x = 2 powi (expo x + 1)"
proof -
  have "(2::real) powi (52 + (expo x - 52)) = 2 powi 52 * 2 powi (expo x - 52)"
    by (rule power_int_add) simp
  then show "of_int (2 ^ 52) * ulp x = 2 powi (expo x)" by (simp add: ulp_def)
  have "(2::real) powi (53 + (expo x - 52)) = 2 powi 53 * 2 powi (expo x - 52)"
    by (rule power_int_add) simp
  then show "of_int (2 ^ 53) * ulp x = 2 powi (expo x + 1)" by (simp add: ulp_def add.commute)
qed

lemma rnd_upper:
  assumes "0 < x"
  shows "rnd x \<le> 2 powi (expo x + 1)"
proof -
  have "x \<le> of_int (2 ^ 53) * ulp x"
    unfolding ulp_mult using expo_spec(1) [of x] assms by simp
  then have "x / ulp x \<le> of_int (2 ^ 53)"
    using ulp_pos [of x] by (simp add: field_simps)
  then have "round_even (x / ulp x) \<le> round_even (of_int (2 ^ 53))"
    by (rule round_even_mono)
  then have "round_even (x / ulp x) \<le> 2 ^ 53" by (simp only: round_even_of_int)
  then have "of_int (round_even (x / ulp x)) * ulp x \<le> of_int (2 ^ 53) * ulp x"
    using ulp_pos [of x] by (intro mult_right_mono) (simp_all only: of_int_le_iff less_imp_le)
  then have "of_int (round_even (x / ulp x)) * ulp x \<le> 2 powi (expo x + 1)"
    unfolding ulp_mult .
  then show ?thesis using assms by (simp add: rnd_def)
qed

lemma rnd_lower:
  assumes "0 < x" and "2 powi (expo x) \<le> x"
  shows "2 powi (expo x) \<le> rnd x"
proof -
  have "of_int (2 ^ 52) * ulp x \<le> x"
    unfolding ulp_mult using assms by simp
  then have "of_int (2 ^ 52) \<le> x / ulp x"
    using ulp_pos [of x] by (simp add: field_simps)
  then have "round_even (of_int (2 ^ 52)) \<le> round_even (x / ulp x)"
    by (rule round_even_mono)
  then have "2 ^ 52 \<le> round_even (x / ulp x)" by (simp only: round_even_of_int)
  then have "of_int (2 ^ 52) * ulp x \<le> of_int (round_even (x / ulp x)) * ulp x"
    using ulp_pos [of x] by (intro mult_right_mono) (simp_all only: of_int_le_iff less_imp_le)
  then have "2 powi (expo x) \<le> of_int (round_even (x / ulp x)) * ulp x"
    unfolding ulp_mult .
  then show ?thesis using assms by (simp add: rnd_def)
qed

lemma rnd_mono_pos:
  assumes "0 < x" and "x \<le> y"
  shows "rnd x \<le> rnd y"
proof (cases "expo x = expo y")
  case True
  then have u: "ulp x = ulp y" by (simp add: ulp_def)
  have "x / ulp y \<le> y / ulp y"
    using assms ulp_pos [of y] by (simp add: divide_right_mono)
  then have "round_even (x / ulp y) \<le> round_even (y / ulp y)"
    by (rule round_even_mono)
  then have "of_int (round_even (x / ulp y)) * ulp y \<le> of_int (round_even (y / ulp y)) * ulp y"
    using ulp_pos [of y] by (intro mult_right_mono) (simp_all only: of_int_le_iff less_imp_le)
  with assms show ?thesis by (simp add: rnd_def u)
next
  case False
  have "expo x \<le> expo y" using assms by (intro expo_mono) simp
  with False have lt: "expo x + 1 \<le> expo y" by simp
  with expo_spec(2) [of x] expo_spec(3) [of y] assms have "2 powi (expo y) \<le> y" by auto
  with assms have "2 powi (expo y) \<le> rnd y" by (intro rnd_lower) auto
  moreover have "(2::real) powi (expo x + 1) \<le> 2 powi (expo y)"
    using lt by (intro power_int_increasing) auto
  ultimately show ?thesis using rnd_upper [OF assms(1)] by linarith
qed

lemma rnd_zero: "rnd 0 = 0"
  by (simp add: rnd_def)

lemma rnd_mono:
  assumes "x \<le> y"
  shows "rnd x \<le> rnd y"
proof -
  consider "0 < x" | "x \<le> 0" "0 \<le> y" | "y < 0" by linarith
  then show ?thesis
  proof cases
    case 1
    then show ?thesis using assms by (rule rnd_mono_pos)
  next
    case 2
    then have "0 \<le> rnd (- x)" "0 \<le> rnd y" by (simp_all add: rnd_nonneg)
    then show ?thesis by (simp add: rnd_minus)
  next
    case 3
    then have "rnd (- y) \<le> rnd (- x)" using assms by (intro rnd_mono_pos) auto
    then show ?thesis by (simp add: rnd_minus)
  qed
qed


lemma rnd_exact:
  assumes x: "x = of_int m * 2 powi k" and m: "\<bar>m\<bar> < 2 ^ 53" and k: "- 1074 \<le> k"
  shows "rnd x = x"
proof (cases "x = 0")
  case True
  then show ?thesis by (simp add: rnd_def)
next
  case False
  have "\<bar>x\<bar> = of_int \<bar>m\<bar> * 2 powi k" by (simp add: x abs_mult)
  also have "\<dots> < of_int (2 ^ 53) * 2 powi k"
    using m by (intro mult_strict_right_mono) (simp_all only: of_int_less_iff zero_less_power_int zero_less_numeral)
  also have "\<dots> = 2 powi (53 + k)"
    using power_int_add [of "2::real" 53 k] by simp
  finally have ub: "\<bar>x\<bar> < 2 powi (53 + k)" .
  have le: "expo x - 52 \<le> k"
  proof (cases "expo x = - 1022")
    case True
    with k show ?thesis by simp
  next
    case False
    with expo_spec(3) [of x] have "2 powi (expo x) \<le> \<bar>x\<bar>" by simp
    with ub have lt: "(2::real) powi (expo x) < 2 powi (53 + k)" by linarith
    show ?thesis
    proof (rule ccontr)
      assume "\<not> expo x - 52 \<le> k"
      then have "53 + k \<le> expo x" by simp
      then have "(2::real) powi (53 + k) \<le> 2 powi (expo x)"
        by (intro power_int_increasing) auto
      with lt show False by simp
    qed
  qed
  define j where "j = nat (k - (expo x - 52))"
  define u where "u = ulp x"
  have u: "0 < u" by (simp add: u_def ulp_pos)
  have "(2::real) powi (int j + (expo x - 52)) = 2 powi (int j) * 2 powi (expo x - 52)"
    by (rule power_int_add) simp
  moreover have "int j + (expo x - 52) = k" using le by (simp add: j_def)
  ultimately have pk: "(2::real) powi k = 2 ^ j * u"
    by (simp add: ulp_def u_def)
  have xu: "x = of_int (m * 2 ^ j) * u"
    by (simp add: x pk)
  then have q: "x / u = of_int (m * 2 ^ j)"
    using u by simp
  have "round_even (x / u) = m * 2 ^ j"
    unfolding q by (rule round_even_of_int)
  then have "rnd x = of_int (m * 2 ^ j) * u"
    using False by (simp add: rnd_def flip: u_def)
  with xu show ?thesis by simp
qed

lemma rnd_int:
  assumes "x \<in> \<int>" and "\<bar>x\<bar> < 2 ^ 53"
  shows "rnd x = x"
proof -
  from assms(1) obtain m where m: "x = of_int m" by (auto elim: Ints_cases)
  with assms(2) have "real_of_int \<bar>m\<bar> < real_of_int (2 ^ 53)" by simp
  then have "\<bar>m\<bar> < 2 ^ 53" by (simp only: of_int_less_iff)
  then show ?thesis by (intro rnd_exact [where m = m and k = 0]) (simp_all add: m)
qed

lemma to_float_mono: "r \<le> r' \<Longrightarrow> float_le (to_float r) (to_float r')"
  by (auto simp: to_float_def)

lemma fsub_mono:
  assumes "a \<le> a'"
  shows "float_le (fsub a b) (fsub a' b)"
proof -
  have "rnd a - rnd b \<le> rnd a' - rnd b" using rnd_mono [OF assms] by simp
  then show ?thesis unfolding fsub_def by (intro to_float_mono rnd_mono)
qed

lemma fsub_nonneg:
  assumes "b \<le> a"
  shows "float_le (Finite 0) (fsub a b)"
proof -
  have "0 \<le> rnd a - rnd b" using rnd_mono [OF assms] by simp
  then have "0 \<le> rnd (rnd a - rnd b)" by (rule rnd_nonneg)
  then show ?thesis by (auto simp: fsub_def to_float_def)
qed

lemma fsub_int:
  assumes "a \<in> \<int>" and "\<bar>a\<bar> < 2 ^ 53" and "b \<in> \<int>" and "\<bar>b\<bar> < 2 ^ 53"
    and "\<bar>a - b\<bar> < 2 ^ 53"
  shows "fsub a b = Finite (a - b)"
proof -
  have "rnd a = a" "rnd b = b" using assms by (simp_all add: rnd_int)
  moreover have "rnd (a - b) = a - b" using assms by (intro rnd_int) auto
  moreover have "a - b < 2 powi 1024" "- (2 powi 1024) < a - b"
    using assms(5) by (auto simp: abs_less_iff)
  ultimately show ?thesis by (simp add: fsub_def to_float_def)
qed

section \<open>The scanner reads exactly the numeric strings of at most 4300 digits\<close>



























section \<open>Routing and the frame of the handlers\<close>

lemma routes_app:
  "routes (app n) =
     [(''GET'', ''/health/'', Health), (''GET'', ''/health/ready'', Ready), (''GET'', ''/'', Root)]"
  by (simp add: app_def get_route_def include_router_def add_middleware_def FastAPI_def router_def)

lemma lookup_health: "lookup_route (routes (app n)) ''GET'' ''/health/'' = Some Health"
  by (simp add: routes_app lookup_route_def)

lemma lookup_ready: "lookup_route (routes (app n)) ''GET'' ''/health/ready'' = Some Ready"
  by (simp add: routes_app lookup_route_def)

lemma lookup_root: "lookup_route (routes (app n)) ''GET'' ''/'' = Some Root"
  by (simp add: routes_app lookup_route_def)

lemma call_state: "snd (call n e now st) = st"
  by (cases e) (simp_all add: root_handler_def health_def ready_def)

lemma request_state: "snd (request n rq now st) = st"
  by (simp add: request_def call_state split: option.split)

lemma serve_eq:
  "serve n reqs st = (map (\<lambda>(rq, now). fst (request n rq now st)) reqs, st)"
  by (induction reqs) (auto simp: request_state)

lemma request_health:
  "request n (''GET'', ''/health/'') now st =
     (Some [(''status'', JString ''healthy''), (''uptime'', JNumber (fsub now (start_time st)))],
      st)"
  by (simp add: request_def lookup_health health_def)

lemma uptime_health:
  "uptime_of (fst (request n (''GET'', ''/health/'') now st)) = Some (fsub now (start_time st))"
  by (simp add: request_health uptime_of_def num_field_def)

lemma uptimes_nth:
  assumes "i < length reqs" and "fst (reqs ! i) = (''GET'', ''/health/'')"
  shows "uptimes (fst (serve n reqs st)) ! i = Some (fsub (snd (reqs ! i)) (start_time st))"
proof -
  obtain rq now where r: "reqs ! i = (rq, now)" by (cases "reqs ! i")
  with assms show ?thesis
    by (simp add: serve_eq uptimes_def uptime_health)
qed

section \<open>The port that the entry point reads\<close>






section \<open>Properties\<close>

subsection \<open>Uptime across calls\<close>

text \<open>
  Claim C1, as amended: in a run of the process, take two calls of GET /health/, the
  first at position \<open>i\<close> and the second at a later position \<open>j\<close>, with any requests
  before, between and after them.  Provided the clock reading of the second call is not
  below the clock reading of the first, each call returns as uptime its clock reading
  minus the start timestamp, as a float, and the second uptime is greater than or equal to
  the first.
\<close>

theorem uptime_monotone:
  assumes "i < j" and "j < length reqs"
    and "fst (reqs ! i) = (''GET'', ''/health/'')" and "fst (reqs ! j) = (''GET'', ''/health/'')"
    and "snd (reqs ! i) \<le> snd (reqs ! j)"
  shows "uptimes (fst (serve n reqs st)) ! i = Some (fsub (snd (reqs ! i)) (start_time st))
       \<and> uptimes (fst (serve n reqs st)) ! j = Some (fsub (snd (reqs ! j)) (start_time st))
       \<and> float_le (fsub (snd (reqs ! i)) (start_time st)) (fsub (snd (reqs ! j)) (start_time st))"
  using assms by (simp add: uptimes_nth fsub_mono)

theorem uptime_monotone_witness:
  "uptimes (fst (serve ''P'' [((''GET'', ''/health/''), 1), ((''GET'', ''/''), 2),
        ((''GET'', ''/health/''), 3)] (init_health 0))) ! 0 = Some (Finite 1)
   \<and> uptimes (fst (serve ''P'' [((''GET'', ''/health/''), 1), ((''GET'', ''/''), 2),
        ((''GET'', ''/health/''), 3)] (init_health 0))) ! 2 = Some (Finite 3)
   \<and> float_le (Finite 1) (Finite 3)"
  using uptime_monotone [of 0 2 "[((''GET'', ''/health/''), 1), ((''GET'', ''/''), 2),
        ((''GET'', ''/health/''), 3)]" "''P''" "init_health 0"]
  by (simp add: init_health_def fsub_int)

text \<open>
  Without the proviso the uptime can decrease.  The process starts when the wall clock
  reads 10; the first call is handled when it reads 20; the system clock is then set back
  and the second call is handled when it reads 15.  The two uptimes are 10 and 5.
\<close>

theorem uptime_decreases:
  "uptimes (fst (serve ''P'' [((''GET'', ''/health/''), 20), ((''GET'', ''/health/''), 15)]
      (init_health 10))) = [Some (Finite 10), Some (Finite 5)]
   \<and> \<not> float_le (Finite 10) (Finite 5)"
  by (simp add: uptimes_def uptime_health request_state init_health_def fsub_int)

text \<open>
  Claim C4, as amended: in a run of a process whose start timestamp is \<open>t0\<close>, a call of
  GET /health/ whose clock reading is not below \<open>t0\<close> returns an uptime that is greater
  than or equal to zero.
\<close>

theorem uptime_nonnegative:
  assumes "i < length reqs" and "fst (reqs ! i) = (''GET'', ''/health/'')"
    and "t0 \<le> snd (reqs ! i)"
  shows "uptimes (fst (serve n reqs (init_health t0))) ! i = Some (fsub (snd (reqs ! i)) t0)
       \<and> float_le (Finite 0) (fsub (snd (reqs ! i)) t0)"
  using assms by (simp add: uptimes_nth init_health_def fsub_nonneg)

theorem uptime_nonnegative_witness:
  "uptimes (fst (serve ''P'' [((''GET'', ''/health/ready''), 4), ((''GET'', ''/health/''), 7)]
       (init_health 3))) ! 1 = Some (Finite 4) \<and> float_le (Finite 0) (Finite 4)"
  using uptime_nonnegative [of 1 "[((''GET'', ''/health/ready''), 4), ((''GET'', ''/health/''), 7)]"
       3 "''P''"]
  by (simp add: fsub_int)

text \<open>
  Without the proviso the uptime can be negative: the process starts when the wall clock
  reads 10, the clock is set back, and a call is handled when it reads 5.
\<close>

theorem uptime_negative:
  "uptime_of (fst (request ''P'' (''GET'', ''/health/'') 5 (init_health 10))) = Some (Finite (- 5))
   \<and> \<not> float_le (Finite 0) (Finite (- 5))"
  by (simp add: uptime_health init_health_def fsub_int)

subsection \<open>The three responses\<close>

text \<open>
  Claim C3, as amended: GET /health/ is routed to \<open>health\<close>; every call returns a body
  whose keys are exactly "status" and "uptime", where "status" is the string "healthy" and
  "uptime" is the float difference between the wall-clock reading of the call and the start
  timestamp, which is the wall-clock reading taken when the process started.  The body is
  sent as a JSON object when that difference is finite, and the call fails otherwise.
\<close>

theorem health_response:
  "lookup_route (routes (app n)) ''GET'' ''/health/'' = Some Health
   \<and> request n (''GET'', ''/health/'') now st =
       (Some [(''status'', JString ''healthy''), (''uptime'', JNumber (fsub now (start_time st)))],
        st)
   \<and> keys (fst (health now st)) = [''status'', ''uptime'']
   \<and> map_of (fst (health now st)) ''status'' = Some (JString ''healthy'')
   \<and> map_of (fst (health now st)) ''uptime'' = Some (JNumber (fsub now (start_time st)))
   \<and> start_time (init_health t0) = t0
   \<and> respond n (''GET'', ''/health/'') now st =
       Some (if is_finite (fsub now (start_time st))
             then Inr [(''status'', JString ''healthy''),
                       (''uptime'', JNumber (fsub now (start_time st)))]
             else Inl ValueError)"
  by (simp add: lookup_health request_health health_def keys_def init_health_def respond_def
      render_def)

text \<open>
  The uptime is not the number of seconds elapsed when the wall clock is adjusted.  The
  process starts when the wall clock reads 10; one hundred seconds later the clock, set
  back in between, reads 5: the call returns -5, and 100 seconds have elapsed.  And when
  the difference of two readings overflows, the call does not succeed.
\<close>

theorem uptime_not_elapsed:
  "uptime_of (fst (request ''P'' (''GET'', ''/health/'')
       (wall_clock \<lparr>true_time = 100, wall_clock = 5\<rparr>)
       (init_health (wall_clock \<lparr>true_time = 0, wall_clock = 10\<rparr>)))) = Some (Finite (- 5))
   \<and> seconds_elapsed \<lparr>true_time = 0, wall_clock = 10\<rparr> \<lparr>true_time = 100, wall_clock = 5\<rparr>
       = Finite 100
   \<and> Finite (- 5) \<noteq> Finite 100
   \<and> respond ''P'' (''GET'', ''/health/'') (2 ^ 1023) (init_health (- (2 ^ 1023)))
       = Some (Inl ValueError)"
proof -
  have a: "rnd (2 ^ 1023) = 2 ^ 1023"
    by (simp add: rnd_exact [where m = 1 and k = 1023])
  have "rnd (2 ^ 1023 - - (2 ^ 1023)) = 2 powi 1024"
    by (simp add: rnd_exact [where m = 1 and k = 1024])
  with a have "fsub (2 ^ 1023) (- (2 ^ 1023)) = PosInf"
    by (simp add: fsub_def to_float_def rnd_minus)
  then show ?thesis
    by (simp add: uptime_of_def num_field_def init_health_def fsub_int seconds_elapsed_def rnd_int
        to_float_def respond_def request_health render_def)
qed

text \<open>
  Claim C5: GET /health/ready is routed to \<open>ready\<close>, and every call returns exactly the
  object {"ready": true}, whatever the project name, the clock and the state are.
\<close>

theorem ready_response:
  "lookup_route (routes (app n)) ''GET'' ''/health/ready'' = Some Ready
   \<and> request n (''GET'', ''/health/ready'') now st = (Some [(''ready'', JBool True)], st)"
  by (simp add: lookup_ready request_def ready_def)

text \<open>
  Claim C6: GET / is routed to the root handler; every call returns the object
  {"message": "Welcome to <project name>"} and leaves the state as it was.
\<close>

theorem root_response:
  "lookup_route (routes (app n)) ''GET'' ''/'' = Some Root
   \<and> request n (''GET'', ''/'') now st =
       (Some [(''message'', JString (''Welcome to '' @ n))], st)"
  by (simp add: lookup_root request_def root_handler_def)

text \<open>
  Claim C10: the bodies returned by GET / and by GET /health/ready do not depend on the
  clock or on the state: two calls with any clock readings and any states return the same
  body.  The environment is not an input of any handler.
\<close>

theorem static_handlers:
  "fst (request n (''GET'', ''/'') now1 st1) = fst (request n (''GET'', ''/'') now2 st2)
   \<and> fst (request n (''GET'', ''/health/ready'') now1 st1)
       = fst (request m (''GET'', ''/health/ready'') now2 st2)
   \<and> fst (root_handler n now1 st1) = fst (root_handler n now2 st2)
   \<and> fst (ready now1 st1) = fst (ready now2 st2)"
  by (simp add: request_def lookup_root lookup_ready root_handler_def ready_def)

subsection \<open>The application object and the start timestamp\<close>

text \<open>
  Claim C7: the application object carries exactly one middleware, the cross-origin policy
  whose origins, methods and headers are the wildcard and whose credentials flag is set.
\<close>

theorem cors_policy:
  "user_middleware (app n) =
     [\<lparr>allow_origins = [''*''], allow_credentials = True,
       allow_methods = [''*''], allow_headers = [''*'']\<rparr>]"
  by (simp add: app_def get_route_def include_router_def add_middleware_def FastAPI_def)

text \<open>
  Claim C8: the start timestamp is the clock reading taken at initialisation; no handler,
  no request and no run of requests changes the state; every response of a run is computed
  from the state as initialisation left it.
\<close>

theorem start_time_frame:
  "start_time (init_health t0) = t0
   \<and> snd (call n e now st) = st
   \<and> snd (request n rq now st) = st
   \<and> serve n reqs (init_health t0) =
       (map (\<lambda>(rq, now). fst (request n rq now (init_health t0))) reqs, init_health t0)"
  by (simp add: init_health_def call_state request_state serve_eq)

subsection \<open>The port\<close>







end
